theory Spec2Isabelle
  imports Main "HOL-Library.Multiset" "HOL-Library.Char_ord" "HOL-Library.List_Lexorder"
begin

section \<open>Text\<close>

text \<open>
  A Python \<open>str\<close> is modelled as a \<^typ>\<open>string\<close>, one \<^typ>\<open>char\<close> per character.
  The character classes below are those of Python on ASCII text: \<open>str.lower\<close>,
  \<open>str.isspace\<close> (used by \<open>str.split\<close>) and the classes \<open>\w\<close>, \<open>\d\<close>, \<open>\s\<close>
  of the \<open>re\<close> module. A character above code 127 is taken as it stands: it has no
  case, is no digit, no space and no word character.
\<close>

definition ord :: "char \<Rightarrow> nat" where
  "ord c = of_char c"

definition is_digit :: "char \<Rightarrow> bool" where
  "is_digit c = (48 \<le> ord c \<and> ord c \<le> 57)"

definition is_upper :: "char \<Rightarrow> bool" where
  "is_upper c = (65 \<le> ord c \<and> ord c \<le> 90)"

definition is_lower :: "char \<Rightarrow> bool" where
  "is_lower c = (97 \<le> ord c \<and> ord c \<le> 122)"

text \<open>\<open>\w\<close>: a letter, a digit or the underscore.\<close>

definition is_word :: "char \<Rightarrow> bool" where
  "is_word c = (is_digit c \<or> is_upper c \<or> is_lower c \<or> c = CHR ''_'')"

text \<open>\<open>\s\<close> and \<open>str.isspace\<close>: tab to carriage return, the four separators 28 to 31, space.\<close>

definition is_space :: "char \<Rightarrow> bool" where
  "is_space c = ((9 \<le> ord c \<and> ord c \<le> 13) \<or> (28 \<le> ord c \<and> ord c \<le> 32))"

text \<open>A capital letter becomes the small letter at its place in the alphabet.\<close>

definition lower_char :: "char \<Rightarrow> char" where
  "lower_char c = (if is_upper c then ''abcdefghijklmnopqrstuvwxyz'' ! (ord c - 65) else c)"

text \<open>\<open>s.lower()\<close>\<close>

definition lower :: "string \<Rightarrow> string" where
  "lower s = map lower_char s"

text \<open>The slice \<open>t[i:j]\<close> for \<open>0 \<le> i\<close>.\<close>

definition substring :: "string \<Rightarrow> nat \<Rightarrow> nat \<Rightarrow> string" where
  "substring t i j = take (j - i) (drop i t)"

text \<open>
  \<open>s.split()\<close> with no argument: the maximal runs of characters that are not white space,
  in order. \<open>cur\<close> is the run being read.
\<close>

fun split_acc :: "string \<Rightarrow> string \<Rightarrow> string list" where
  "split_acc cur [] = (if cur = [] then [] else [cur])"
| "split_acc cur (c # cs) =
     (if is_space c then (if cur = [] then split_acc [] cs else cur # split_acc [] cs)
      else split_acc (cur @ [c]) cs)"

definition split :: "string \<Rightarrow> string list" where
  "split s = split_acc [] s"

section \<open>The regular expressions of the program\<close>

text \<open>
  The three patterns of the program are sequences of two kinds of item: the assertion
  \<open>\b\<close>, and a one-character atom under a greedy quantifier. \<open>Rep a lo hi\<close> is
  \<open>a{lo,hi}\<close>, with \<open>hi = None\<close> for no upper bound; so \<open>a\<close> is \<open>Rep a 1 (Some 1)\<close>,
  \<open>a?\<close> is \<open>Rep a 0 (Some 1)\<close> and \<open>a+\<close> is \<open>Rep a 1 None\<close>.
\<close>

datatype cls = Lit char | Range char char | Digit | Space

datatype atom = One cls | Any "cls list"

datatype item = WordB | Rep atom nat "nat option"

type_synonym regex = "item list"

fun in_cls :: "cls \<Rightarrow> char \<Rightarrow> bool" where
  "in_cls (Lit a) c = (c = a)"
| "in_cls (Range a b) c = (ord a \<le> ord c \<and> ord c \<le> ord b)"
| "in_cls Digit c = is_digit c"
| "in_cls Space c = is_space c"

fun accepts :: "atom \<Rightarrow> char \<Rightarrow> bool" where
  "accepts (One k) c = in_cls k c"
| "accepts (Any ks) c = list_ex (\<lambda>k. in_cls k c) ks"

definition word_at :: "string \<Rightarrow> nat \<Rightarrow> bool" where
  "word_at t i = (i < length t \<and> is_word (t ! i))"

text \<open>
  \<open>\b\<close> holds at position \<open>i\<close> when exactly one of the characters before and after
  the position is a word character; the edges of the text count as no word character.
\<close>

definition at_boundary :: "string \<Rightarrow> nat \<Rightarrow> bool" where
  "at_boundary t i = ((0 < i \<and> word_at t (i - 1)) \<noteq> word_at t i)"

text \<open>The number of characters a greedy \<open>a{lo,hi}\<close> takes first: as many as it can.\<close>

definition greedy :: "atom \<Rightarrow> nat option \<Rightarrow> string \<Rightarrow> nat \<Rightarrow> nat" where
  "greedy a hi t pos =
     (let n = length (takeWhile (accepts a) (drop pos t))
      in case hi of None \<Rightarrow> n | Some h \<Rightarrow> min h n)"

text \<open>
  Backtracking: the rest of the pattern \<open>k\<close> is tried after \<open>n\<close> repetitions, then after
  one fewer, down to \<open>lo\<close>; the first success is the match.
\<close>

fun backoff :: "(nat \<Rightarrow> nat option) \<Rightarrow> nat \<Rightarrow> nat \<Rightarrow> nat option" where
  "backoff k lo n =
     (if n < lo then None
      else case k n of
             Some e \<Rightarrow> Some e
           | None \<Rightarrow> (case n of 0 \<Rightarrow> None | Suc m \<Rightarrow> backoff k lo m))"

declare backoff.simps [simp del]

text \<open>\<open>match_items r t pos\<close>: where the match of \<open>r\<close> that starts at \<open>pos\<close> ends, if there is one.\<close>

primrec match_items :: "regex \<Rightarrow> string \<Rightarrow> nat \<Rightarrow> nat option" where
  "match_items [] t pos = Some pos"
| "match_items (x # r) t pos =
     (case x of
        WordB \<Rightarrow> if at_boundary t pos then match_items r t pos else None
      | Rep a lo hi \<Rightarrow> backoff (\<lambda>n. match_items r t (pos + n)) lo (greedy a hi t pos))"

text \<open>
  The scan of \<open>re.search\<close> and \<open>re.findall\<close>: the start positions
  \<open>pos, pos + 1, \<dots>, len(t)\<close> in turn; the first that matches gives the span.
\<close>

function search_from :: "regex \<Rightarrow> string \<Rightarrow> nat \<Rightarrow> (nat \<times> nat) option" where
  "search_from r t pos =
     (if length t < pos then None
      else case match_items r t pos of
             Some e \<Rightarrow> Some (pos, e)
           | None \<Rightarrow> search_from r t (pos + 1))"
  by pat_completeness auto
termination
  by (relation "measure (\<lambda>(r, t, pos). length t + 1 - pos)") auto

declare search_from.simps [simp del]

definition re_search :: "regex \<Rightarrow> string \<Rightarrow> (nat \<times> nat) option" where
  "re_search r t = search_from r t 0"

lemma backoff_Some:
  "backoff k lo n = Some e \<Longrightarrow> \<exists>m. lo \<le> m \<and> m \<le> n \<and> k m = Some e"
proof (induction n)
  case 0
  then show ?case
    by (simp add: backoff.simps [of k lo 0] split: if_splits option.splits)
next
  case (Suc n)
  show ?case
  proof (cases "k (Suc n)")
    case None
    with Suc.prems have "backoff k lo n = Some e"
      by (simp add: backoff.simps [of k lo "Suc n"] split: if_splits)
    with Suc.IH show ?thesis by (meson le_Suc_eq)
  next
    case (Some e')
    with Suc.prems have "lo \<le> Suc n" and "e' = e"
      by (auto simp: backoff.simps [of k lo "Suc n"] split: if_splits)
    with Some show ?thesis by blast
  qed
qed

lemma match_items_ge: "match_items r t pos = Some e \<Longrightarrow> pos \<le> e"
proof (induction r arbitrary: pos)
  case Nil
  then show ?case by simp
next
  case (Cons x r)
  show ?case
  proof (cases x)
    case WordB
    with Cons show ?thesis by (auto split: if_splits)
  next
    case (Rep a lo hi)
    with Cons.prems obtain m where "match_items r t (pos + m) = Some e"
      by (auto dest: backoff_Some)
    with Cons.IH have "pos + m \<le> e" by blast
    then show ?thesis by simp
  qed
qed

lemma search_from_Some:
  "search_from r t pos = Some (s, e) \<Longrightarrow>
     pos \<le> s \<and> s \<le> length t \<and> s \<le> e \<and> match_items r t s = Some e"
proof (induction r t pos rule: search_from.induct)
  case (1 r t pos)
  show ?case
  proof (cases "match_items r t pos")
    case None
    with "1.prems" have le: "\<not> length t < pos" and "search_from r t (pos + 1) = Some (s, e)"
      by (auto simp: search_from.simps [of r t pos] split: if_splits)
    with "1.IH" None show ?thesis by fastforce
  next
    case (Some e')
    with "1.prems" show ?thesis
      by (auto simp: search_from.simps [of r t pos] match_items_ge split: if_splits)
  qed
qed

text \<open>
  \<open>re.findall(r, t)\<close> for a pattern without groups: the matched substrings, left to
  right, each search starting where the last match ended (one further after an empty
  match; neither pattern of \<open>extract_contact_info\<close> matches the empty string).
\<close>

function findall_from :: "regex \<Rightarrow> string \<Rightarrow> nat \<Rightarrow> string list" where
  "findall_from r t pos =
     (case search_from r t pos of
        None \<Rightarrow> []
      | Some (s, e) \<Rightarrow> substring t s e # findall_from r t (if e = s then s + 1 else e))"
  by pat_completeness auto
termination
proof (relation "measure (\<lambda>(r, t, pos). length t + 1 - pos)")
  show "wf (measure (\<lambda>(r, t, pos). length t + 1 - pos))" by simp
next
  fix r :: regex and t :: string and pos :: nat and x2 :: "nat \<times> nat" and s e :: nat
  assume "search_from r t pos = Some x2" and "(s, e) = x2"
  then have "search_from r t pos = Some (s, e)" by simp
  then have "pos \<le> s" "s \<le> length t" "s \<le> e"
    by (auto dest: search_from_Some)
  then show "((r, t, if e = s then s + 1 else e), (r, t, pos))
               \<in> measure (\<lambda>(r, t, pos). length t + 1 - pos)"
    by auto
qed

declare findall_from.simps [simp del]

definition findall :: "regex \<Rightarrow> string \<Rightarrow> string list" where
  "findall r t = findall_from r t 0"

definition plain :: "atom \<Rightarrow> item" where
  "plain a = Rep a 1 (Some 1)"

text \<open>\<^verbatim>\<open>\b[A-Za-z0-9._%+-]+@[A-Za-z0-9.-]+\.[A-Z|a-z]{2,}\b\<close>\<close>

definition email_re :: regex where
  "email_re =
     [WordB,
      Rep (Any [Range CHR ''A'' CHR ''Z'', Range CHR ''a'' CHR ''z'', Range CHR ''0'' CHR ''9'',
                Lit CHR ''.'', Lit CHR ''_'', Lit CHR ''%'', Lit CHR ''+'', Lit CHR ''-'']) 1 None,
      plain (One (Lit CHR ''@'')),
      Rep (Any [Range CHR ''A'' CHR ''Z'', Range CHR ''a'' CHR ''z'', Range CHR ''0'' CHR ''9'',
                Lit CHR ''.'', Lit CHR ''-'']) 1 None,
      plain (One (Lit CHR ''.'')),
      Rep (Any [Range CHR ''A'' CHR ''Z'', Lit CHR ''|'', Range CHR ''a'' CHR ''z'']) 2 None,
      WordB]"

text \<open>\<^verbatim>\<open>\(?\d{3}\)?[-.\s]?\d{3}[-.\s]?\d{4}\<close>\<close>

definition phone_re :: regex where
  "phone_re =
     [Rep (One (Lit CHR ''('')) 0 (Some 1),
      Rep (One Digit) 3 (Some 3),
      Rep (One (Lit CHR '')'')) 0 (Some 1),
      Rep (Any [Lit CHR ''-'', Lit CHR ''.'', Space]) 0 (Some 1),
      Rep (One Digit) 3 (Some 3),
      Rep (Any [Lit CHR ''-'', Lit CHR ''.'', Space]) 0 (Some 1),
      Rep (One Digit) 4 (Some 4)]"

text \<open>
  \<^verbatim>\<open>r'\b' + re.escape(skill_lower) + r'\b'\<close>: \<open>re.escape\<close> makes every character of
  the skill stand for itself.
\<close>

definition skill_pattern :: "string \<Rightarrow> regex" where
  "skill_pattern skill_lower = [WordB] @ map (\<lambda>c. plain (One (Lit c))) skill_lower @ [WordB]"

section \<open>Information extraction\<close>

text \<open>\<open>extract_contact_info\<close>: \<open>email[0] if email else None\<close>, and the same for the phone.\<close>

definition extract_contact_info :: "string \<Rightarrow> string option \<times> string option" where
  "extract_contact_info text =
     (let email = findall email_re text;
          phone = findall phone_re text
      in (case email of [] \<Rightarrow> None | m # _ \<Rightarrow> Some m,
          case phone of [] \<Rightarrow> None | m # _ \<Rightarrow> Some m))"

text \<open>
  The named-entity recogniser is a pretrained model outside the program, so it is a
  parameter: \<open>nlp_model text\<close> is \<open>doc.ents\<close>, the entities in the order of the text,
  each with its text and its label.
\<close>

record ent =
  ent_text :: string
  ent_label :: string

type_synonym ner = "string \<Rightarrow> ent list"

text \<open>The loop of \<open>extract_name\<close>: the first name that \<open>split\<close> cuts into more than one part.\<close>

fun first_multiword :: "string list \<Rightarrow> string option" where
  "first_multiword [] = None"
| "first_multiword (name # rest) =
     (if 1 < length (split name) then Some name else first_multiword rest)"

definition extract_name :: "string \<Rightarrow> ner \<Rightarrow> string option" where
  "extract_name text nlp_model =
     (let doc = nlp_model text;
          person_names = map ent_text (filter (\<lambda>e. ent_label e = ''PERSON'') doc)
      in case first_multiword person_names of
           Some name \<Rightarrow> Some name
         | None \<Rightarrow> (case person_names of [] \<Rightarrow> None | name # _ \<Rightarrow> Some name))"

text \<open>
  \<open>found_skills\<close> is a Python set: here the list of its elements without repetition.
  \<open>list(found_skills)\<close> lists them in an order Python does not fix, so every statement
  below reads the result of \<open>extract_skills\<close> through \<^const>\<open>set\<close> or after sorting.
\<close>

definition set_add :: "'a \<Rightarrow> 'a list \<Rightarrow> 'a list" where
  "set_add x s = (if x \<in> set s then s else s @ [x])"

fun skills_loop :: "string \<Rightarrow> string list \<Rightarrow> string list \<Rightarrow> string list" where
  "skills_loop text_lower [] found_skills = found_skills"
| "skills_loop text_lower (skill # rest) found_skills =
     (let skill_lower = lower skill;
          pattern = skill_pattern skill_lower
      in if re_search pattern text_lower \<noteq> None
         then skills_loop text_lower rest (set_add skill found_skills)
         else skills_loop text_lower rest found_skills)"

definition extract_skills :: "string \<Rightarrow> string list \<Rightarrow> string list" where
  "extract_skills text skills_list = skills_loop (lower text) skills_list []"

definition TARGET_SKILLS :: "string list" where
  "TARGET_SKILLS =
     [''python'', ''java'', ''c++'', ''javascript'', ''sql'', ''nosql'', ''mongodb'',
      ''postgresql'', ''aws'', ''azure'', ''gcp'', ''docker'', ''kubernetes'', ''git'',
      ''jira'', ''agile'', ''scrum'', ''machine learning'', ''deep learning'', ''nlp'',
      ''natural language processing'', ''data analysis'', ''data science'', ''pandas'',
      ''numpy'', ''scikit-learn'', ''tensorflow'', ''pytorch'', ''react'', ''angular'',
      ''vue'', ''node.js'', ''flask'', ''django'', ''project management'',
      ''communication'', ''teamwork'', ''problem solving'']"

section \<open>Scoring\<close>

text \<open>\<open>set(xs)\<close> and \<open>s.intersection(t)\<close> on sets kept as lists without repetition.\<close>

definition py_set :: "'a list \<Rightarrow> 'a list" where
  "py_set xs = remdups xs"

definition intersection :: "'a list \<Rightarrow> 'a list \<Rightarrow> 'a list" where
  "intersection s t = filter (\<lambda>x. x \<in> set t) s"

definition calculate_match_score :: "string list \<Rightarrow> string list \<Rightarrow> int" where
  "calculate_match_score resume_skills job_desc_keywords =
     (let common_skills = intersection (py_set resume_skills) (py_set job_desc_keywords);
          score = int (length common_skills)
      in score)"

section \<open>Notions the statements use\<close>

text \<open>The test of the loop of \<open>extract_skills\<close> for one skill, on the lowercased text.\<close>

definition skill_found :: "string \<Rightarrow> string \<Rightarrow> bool" where
  "skill_found text_lower skill = (re_search (skill_pattern (lower skill)) text_lower \<noteq> None)"

text \<open>
  The names \<open>extract_name\<close> chooses from, and its test for a name of more than one
  part: \<open>len(name.split()) > 1\<close>.
\<close>

definition person_names :: "ent list \<Rightarrow> string list" where
  "person_names doc = map ent_text (filter (\<lambda>e. ent_label e = ''PERSON'') doc)"

definition multiword :: "string \<Rightarrow> bool" where
  "multiword name = (1 < length (split name))"

text \<open>A recogniser to run the examples with: what a model could report on three texts.\<close>

definition demo_nlp :: ner where
  "demo_nlp t =
     (if t = [] then []
      else if t = ''Ask Jane or Bob at Acme'' then
        [\<lparr>ent_text = ''Jane'', ent_label = ''PERSON''\<rparr>,
         \<lparr>ent_text = ''Bob'', ent_label = ''PERSON''\<rparr>,
         \<lparr>ent_text = ''Acme'', ent_label = ''ORG''\<rparr>]
      else
        [\<lparr>ent_text = ''Acme'', ent_label = ''ORG''\<rparr>,
         \<lparr>ent_text = ''Jane'', ent_label = ''PERSON''\<rparr>,
         \<lparr>ent_text = ''Jane Doe'', ent_label = ''PERSON''\<rparr>,
         \<lparr>ent_text = ''John Roe'', ent_label = ''PERSON''\<rparr>])"

section \<open>Equations to run the matcher on a given text\<close>

text \<open>
  \<open>try_rep\<close> is \<^const>\<open>backoff\<close> with the rest of the pattern written out, so that its
  equation is unfolded one repetition count at a time.
\<close>

definition try_rep :: "regex \<Rightarrow> string \<Rightarrow> nat \<Rightarrow> nat \<Rightarrow> nat \<Rightarrow> nat option" where
  "try_rep r t pos lo n = backoff (\<lambda>n. match_items r t (pos + n)) lo n"

lemma try_rep_unfold:
  "try_rep r t pos lo n =
     (if n < lo then None
      else case match_items r t (pos + n) of
             Some e \<Rightarrow> Some e
           | None \<Rightarrow> (if n = 0 then None else try_rep r t pos lo (n - 1)))"
  unfolding try_rep_def
  by (subst backoff.simps) (simp split: nat.splits option.splits)

lemma match_items_WordB:
  "match_items (WordB # r) t pos = (if at_boundary t pos then match_items r t pos else None)"
  by simp

lemma match_items_Rep:
  "match_items (Rep a lo hi # r) t pos = try_rep r t pos lo (greedy a hi t pos)"
  by (simp add: try_rep_def)

declare match_items.simps(2) [simp del]

lemmas run_text = ord_def is_digit_def is_upper_def is_lower_def is_word_def is_space_def
  lower_char_def lower_def substring_def split_def

lemmas run_re = run_text word_at_def at_boundary_def greedy_def
  try_rep_unfold match_items_WordB match_items_Rep
  search_from.simps findall_from.simps findall_def re_search_def plain_def
  email_re_def phone_re_def skill_pattern_def

lemmas run_extract = run_re extract_contact_info_def extract_skills_def set_add_def

section \<open>First match and whole-word occurrence\<close>


text \<open>
  A whole-word occurrence of \<open>s\<close> in \<open>t\<close>: \<open>s\<close> stands at some position of \<open>t\<close>
  with no word character right before it and none right after it (an edge of the text
  counts as no word character).
\<close>

definition whole_word_in :: "string \<Rightarrow> string \<Rightarrow> bool" where
  "whole_word_in s t =
     (\<exists>i. i + length s \<le> length t \<and> substring t i (i + length s) = s
          \<and> \<not> (0 < i \<and> word_at t (i - 1)) \<and> \<not> word_at t (i + length s))"

section \<open>Text extraction from uploaded files\<close>

text \<open>
  The PDF and DOCX readers are libraries outside the program, so they are parameters. An
  exception is the left injection, with the text \<open>str(e)\<close> of the exception.
  \<open>PdfReader content\<close> is what opening the bytes as a PDF gives: an exception, or the
  pages, each with what \<open>page.extract_text()\<close> gives, an exception or a string.
  \<open>Document content\<close> is an exception or the texts of the paragraphs.
\<close>

type_synonym pdf_lib = "string \<Rightarrow> string + (string + string) list"

type_synonym docx_lib = "string \<Rightarrow> string + string list"

record uploaded_file =
  file_name :: string
  file_value :: string

text \<open>
  The loop over the pages, inside the \<open>try\<close>: the text read so far, and the exception
  that ended the loop, if one did. A page with no text adds nothing.
\<close>

fun pdf_pages :: "(string + string) list \<Rightarrow> string \<Rightarrow> string \<times> string option" where
  "pdf_pages [] text = (text, None)"
| "pdf_pages (page # pages) text =
     (case page of
        Inl e \<Rightarrow> (text, Some e)
      | Inr page_text \<Rightarrow>
          pdf_pages pages (if page_text \<noteq> [] then text @ page_text @ [CHR 0x0A] else text))"

text \<open>
  The extraction functions return the text and the warnings they show. The \<open>except\<close>
  clause shows a warning and falls through to \<open>return text\<close>, with \<open>text\<close> as the loop
  left it.
\<close>

definition extract_text_from_pdf :: "pdf_lib \<Rightarrow> string \<Rightarrow> string \<times> string list" where
  "extract_text_from_pdf PdfReader file_content =
     (case PdfReader file_content of
        Inl e \<Rightarrow> ([], [''Could not read PDF: '' @ e])
      | Inr pages \<Rightarrow>
          (case pdf_pages pages [] of
             (text, None) \<Rightarrow> (text, [])
           | (text, Some e) \<Rightarrow> (text, [''Could not read PDF: '' @ e])))"

definition extract_text_from_docx :: "docx_lib \<Rightarrow> string \<Rightarrow> string \<times> string list" where
  "extract_text_from_docx Document file_content =
     (case Document file_content of
        Inl e \<Rightarrow> ([], [''Could not read DOCX: '' @ e])
      | Inr paragraphs \<Rightarrow> (foldl (\<lambda>text para. text @ para @ [CHR 0x0A]) [] paragraphs, []))"

text \<open>\<open>p.rfind(c)\<close>: the last index of \<open>c\<close> in \<open>p\<close>, or \<open>-1\<close>.\<close>

definition rfind :: "string \<Rightarrow> char \<Rightarrow> int" where
  "rfind p c =
     (if c \<in> set p then int (length p) - 1 - int (length (takeWhile (\<lambda>x. x \<noteq> c) (rev p)))
      else - 1)"

text \<open>
  \<open>os.path.splitext\<close> (POSIX): the extension starts at the last dot of the last path
  component, unless only dots come before it in that component.
\<close>

definition splitext :: "string \<Rightarrow> string \<times> string" where
  "splitext p =
     (let sepIndex = rfind p CHR ''/'';
          dotIndex = rfind p CHR ''.''
      in if sepIndex < dotIndex
            \<and> list_ex (\<lambda>c. c \<noteq> CHR ''.'') (substring p (nat (sepIndex + 1)) (nat dotIndex))
         then (take (nat dotIndex) p, drop (nat dotIndex) p)
         else (p, []))"

definition extract_text :: "pdf_lib \<Rightarrow> docx_lib \<Rightarrow> uploaded_file \<Rightarrow> string \<times> string list" where
  "extract_text PdfReader Document uploaded =
     (let file_content = file_value uploaded;
          file_extension = lower (snd (splitext (file_name uploaded)))
      in if file_extension = ''.pdf'' then extract_text_from_pdf PdfReader file_content
         else if file_extension = ''.docx'' then extract_text_from_docx Document file_content
         else ([], [''Unsupported file type: '' @ file_name uploaded]))"

section \<open>Processing a batch of resumes\<close>

record candidate =
  Filename :: string
  Name :: string
  Email :: string
  Phone :: string
  Skills_Found :: "string list"
  Score :: int
  Raw_Text :: string

text \<open>\<open>x if x else 'Not Found'\<close>\<close>

definition or_not_found :: "string option \<Rightarrow> string" where
  "or_not_found x = (case x of None \<Rightarrow> ''Not Found'' | Some s \<Rightarrow> if s = [] then ''Not Found'' else s)"

text \<open>The body of the loop over the uploaded files: the record appended, and the warnings.\<close>

definition process_file ::
  "ner \<Rightarrow> pdf_lib \<Rightarrow> docx_lib \<Rightarrow> string list \<Rightarrow> uploaded_file \<Rightarrow> candidate \<times> string list" where
  "process_file nlp PdfReader Document job_keywords file =
     (case extract_text PdfReader Document file of
        (resume_text, warnings) \<Rightarrow>
          if resume_text = [] then
            (\<lparr>Filename = file_name file, Name = ''Extraction Failed'', Email = ''N/A'',
              Phone = ''N/A'', Skills_Found = [], Score = 0, Raw_Text = []\<rparr>, warnings)
          else
            (let name = extract_name resume_text nlp;
                 contact = extract_contact_info resume_text;
                 skills_found = extract_skills resume_text TARGET_SKILLS;
                 score = calculate_match_score skills_found job_keywords
             in (\<lparr>Filename = file_name file, Name = or_not_found name,
                  Email = or_not_found (fst contact), Phone = or_not_found (snd contact),
                  Skills_Found = sort skills_found, Score = score,
                  Raw_Text = resume_text\<rparr>, warnings)))"

fun process_files ::
  "ner \<Rightarrow> pdf_lib \<Rightarrow> docx_lib \<Rightarrow> string list \<Rightarrow> uploaded_file list \<Rightarrow>
   candidate list \<times> string list \<Rightarrow> candidate list \<times> string list" where
  "process_files nlp PdfReader Document job_keywords [] acc = acc"
| "process_files nlp PdfReader Document job_keywords (file # rest) acc =
     (case process_file nlp PdfReader Document job_keywords file of
        (row, warnings) \<Rightarrow>
          process_files nlp PdfReader Document job_keywords rest
            (fst acc @ [row], snd acc @ warnings))"

text \<open>Steps 1 and 2 of the main block: the job keywords, then the results of all files.\<close>

definition results ::
  "ner \<Rightarrow> pdf_lib \<Rightarrow> docx_lib \<Rightarrow> string \<Rightarrow> uploaded_file list \<Rightarrow> candidate list \<times> string list" where
  "results nlp PdfReader Document job_description uploaded_files =
     (let job_desc_lower = lower job_description;
          job_keywords = extract_skills job_desc_lower TARGET_SKILLS
      in process_files nlp PdfReader Document job_keywords uploaded_files ([], []))"

text \<open>Readers to run the examples with.\<close>

definition demo_pdf :: pdf_lib where
  "demo_pdf content =
     (if content = ''two pages, the second broken'' then
        Inr [Inr ''Jane Doe knows Python'', Inl ''bad stream'']
      else if content = ''one page'' then Inr [Inr ''Ask Jane or Bob at Acme'']
      else Inl ''EOF marker not found'')"

definition demo_docx :: docx_lib where
  "demo_docx content =
     (if content = ''two paragraphs'' then Inr [''Jane Doe'', ''SQL and Git'']
      else Inl ''File is not a zip file'')"

text \<open>The placeholder row of a file with no text, and the extension \<open>extract_text\<close> tests.\<close>

definition failed_row :: "string \<Rightarrow> candidate" where
  "failed_row fname =
     \<lparr>Filename = fname, Name = ''Extraction Failed'', Email = ''N/A'', Phone = ''N/A'',
      Skills_Found = [], Score = 0, Raw_Text = []\<rparr>"

definition file_extension :: "uploaded_file \<Rightarrow> string" where
  "file_extension f = lower (snd (splitext (file_name f)))"

section \<open>Ranking\<close>

text \<open>
  A data frame is the list of its rows, each with its index label.
  \<open>pd.DataFrame(results)\<close> labels the rows \<open>0, 1, \<dots>\<close>.
\<close>

type_synonym 'r dataframe = "(int \<times> 'r) list"

definition DataFrame :: "'r list \<Rightarrow> 'r dataframe" where
  "DataFrame rows = zip (map int [0..<length rows]) rows"

text \<open>
  \<open>results_df.sort_values(by="Score", ascending=False)\<close> names no \<open>kind\<close>, so pandas
  sorts the column with the default kind of numpy's \<open>argsort\<close>, \<open>quicksort\<close>, which
  its documentation gives as not stable. The routine is outside the program and is a
  parameter here: \<open>srt ks\<close> lists the positions of \<open>ks\<close> in ascending order of the
  keys. For a descending sort pandas reverses the column, sorts it ascending, maps the
  positions back and reverses the result; the frame then takes its rows in that order.
\<close>

type_synonym argsort = "int list \<Rightarrow> nat list"

definition nargsort_desc :: "argsort \<Rightarrow> int list \<Rightarrow> nat list" where
  "nargsort_desc srt items =
     (let n = length items in rev (map (\<lambda>j. n - 1 - j) (srt (rev items))))"

definition sort_values_desc :: "argsort \<Rightarrow> candidate dataframe \<Rightarrow> candidate dataframe" where
  "sort_values_desc srt df = map (\<lambda>i. df ! i) (nargsort_desc srt (map (\<lambda>row. Score (snd row)) df))"

text \<open>What every kind of \<open>argsort\<close> promises on the keys \<open>ks\<close>: a permutation of the
  positions that puts the keys in ascending order.\<close>

definition sorts :: "argsort \<Rightarrow> int list \<Rightarrow> bool" where
  "sorts srt ks = (mset (srt ks) = mset [0..<length ks] \<and> sorted (map (\<lambda>i. ks ! i) (srt ks)))"

text \<open>
  Two routines that keep this promise: the stable one (equal keys in the order of their
  positions), which is what the kinds \<open>stable\<close> and \<open>mergesort\<close> compute, and one
  that puts equal keys in the opposite order, as a kind that is not stable may.
\<close>

definition stable_argsort :: argsort where
  "stable_argsort ks = map snd (sort_key fst (zip ks [0..<length ks]))"

definition ties_reversed_argsort :: argsort where
  "ties_reversed_argsort ks = rev (stable_argsort (map uminus ks))"

text \<open>
  \<open>reset_index(drop=True)\<close>, \<open>ranked_df.index = ranked_df.index + 1\<close> and
  \<open>ranked_df['Rank'] = ranked_df.index\<close>.
\<close>

definition reset_index :: "'r dataframe \<Rightarrow> 'r dataframe" where
  "reset_index df = zip (map int [0..<length df]) (map snd df)"

definition index_plus :: "int \<Rightarrow> 'r dataframe \<Rightarrow> 'r dataframe" where
  "index_plus k df = map (\<lambda>(i, r). (i + k, r)) df"

record ranked = candidate +
  Rank :: int

definition with_rank :: "candidate dataframe \<Rightarrow> ranked dataframe" where
  "with_rank df = map (\<lambda>(i, r). (i, candidate.extend r (ranked.fields i))) df"

definition ranked_df :: "argsort \<Rightarrow> candidate list \<Rightarrow> ranked dataframe" where
  "ranked_df srt rs = with_rank (index_plus 1 (reset_index (sort_values_desc srt (DataFrame rs))))"

text \<open>Rows to run the examples with.\<close>

definition demo_row :: "string \<Rightarrow> int \<Rightarrow> candidate" where
  "demo_row fname sc =
     \<lparr>Filename = fname, Name = ''Not Found'', Email = ''Not Found'', Phone = ''Not Found'',
      Skills_Found = [], Score = sc, Raw_Text = ''x''\<rparr>"

definition demo_rows :: "candidate list" where
  "demo_rows = [demo_row ''a'' 1, demo_row ''b'' 2, demo_row ''c'' 1, demo_row ''d'' 2]"

text \<open>A string with a character that is no white space.\<close>

definition nonblank :: "string \<Rightarrow> bool" where
  "nonblank s = list_ex (\<lambda>c. \<not> is_space c) s"

section \<open>The phone pattern is not anchored\<close>

text \<open>
  C10. The phone pattern has no \<open>\b\<close> and no look-around, so it matches inside a longer
  run of digits: on the eleven digits \<open>12345678901\<close> \<open>extract_contact_info\<close> reports the
  first ten of them as the phone number instead of reporting none.
\<close>

theorem phone_inside_longer_digit_run:
  "snd (extract_contact_info ''12345678901'') = Some ''1234567890''"
  by (simp add: run_extract)

section \<open>The score is the size of the intersection\<close>

lemma set_intersection: "set (intersection s t) = set s \<inter> set t"
  by (auto simp: intersection_def)

lemma distinct_intersection: "distinct s \<Longrightarrow> distinct (intersection s t)"
  by (simp add: intersection_def)

text \<open>
  C2. For all skill lists \<open>A\<close> and \<open>B\<close>, \<open>calculate_match_score A B\<close> is the number of
  elements of the intersection of \<open>A\<close> and \<open>B\<close> taken as sets; it is never negative and
  never above the smaller of the two sets' sizes.
\<close>

theorem calculate_match_score_card:
  "calculate_match_score A B = int (card (set A \<inter> set B))
   \<and> 0 \<le> calculate_match_score A B
   \<and> calculate_match_score A B \<le> int (min (card (set A)) (card (set B)))"
proof -
  let ?c = "intersection (py_set A) (py_set B)"
  have d: "distinct ?c"
    by (simp add: distinct_intersection py_set_def)
  have s: "set ?c = set A \<inter> set B"
    by (simp add: set_intersection py_set_def)
  have eq: "calculate_match_score A B = int (card (set A \<inter> set B))"
    using distinct_card [OF d] s by (simp add: calculate_match_score_def)
  have "card (set A \<inter> set B) \<le> card (set A)" "card (set A \<inter> set B) \<le> card (set B)"
    by (simp_all add: card_mono)
  with eq show ?thesis by simp
qed

theorem calculate_match_score_card_witness:
  "calculate_match_score [''python'', ''sql'', ''sql''] [''python'', ''docker''] = 1"
  using calculate_match_score_card [of "[''python'', ''sql'', ''sql'']" "[''python'', ''docker'']"]
  by (simp add: card_insert_if)

section \<open>The extracted skills as a set\<close>

lemma set_set_add: "set (set_add x s) = insert x (set s)"
  by (auto simp: set_add_def)

lemma distinct_set_add: "distinct s \<Longrightarrow> distinct (set_add x s)"
  by (simp add: set_add_def)

lemma set_skills_loop:
  "set (skills_loop txt vs found) = set found \<union> {s \<in> set vs. skill_found txt s}"
  by (induction vs arbitrary: found) (auto simp: Let_def set_set_add skill_found_def)

lemma distinct_skills_loop: "distinct found \<Longrightarrow> distinct (skills_loop txt vs found)"
  by (induction vs arbitrary: found) (simp_all add: Let_def distinct_set_add)

lemma set_extract_skills:
  "set (extract_skills t vs) = {s \<in> set vs. skill_found (lower t) s}"
  by (simp add: extract_skills_def set_skills_loop)

lemma distinct_extract_skills: "distinct (extract_skills t vs)"
  by (simp add: extract_skills_def distinct_skills_loop)

text \<open>
  C9. \<open>extract_skills\<close> reads nothing but its two arguments, so a second run on the same
  text and vocabulary gives the same set; running it again with its own result as the
  vocabulary changes nothing; and a vocabulary with the same entries in another order
  gives the same set.
\<close>

theorem extract_skills_order_independent:
  "set (extract_skills t vs) = set (extract_skills t vs)
   \<and> set (extract_skills t (extract_skills t vs)) = set (extract_skills t vs)
   \<and> (mset vs' = mset vs \<longrightarrow> set (extract_skills t vs') = set (extract_skills t vs))"
proof -
  have "mset vs' = mset vs \<Longrightarrow> set vs' = set vs"
    by (metis set_mset_mset)
  then show ?thesis
    by (auto simp: set_extract_skills)
qed

theorem extract_skills_order_independent_witness:
  "set (extract_skills ''SQL and Git'' [''git'', ''java'', ''sql'']) = {''sql'', ''git''}
   \<and> set (extract_skills ''SQL and Git'' [''sql'', ''git'', ''java'']) = {''sql'', ''git''}"
proof -
  have p: "mset [''sql'', ''git'', ''java''] = mset [''git'', ''java'', ''sql'']"
    by (simp add: add_mset_commute)
  have e: "extract_skills ''SQL and Git'' [''git'', ''java'', ''sql''] = [''git'', ''sql'']"
    by (simp add: run_extract)
  from extract_skills_order_independent
         [of "''SQL and Git''" "[''git'', ''java'', ''sql'']" "[''sql'', ''git'', ''java'']"] p e
  show ?thesis by auto
qed

section \<open>The name heuristic\<close>



text \<open>
  \<open>split\<close> cuts a name into more than one part exactly when the name has a white-space
  character with a character that is no white space somewhere before it and somewhere
  after it.
\<close>

lemma nonblank_simps [simp]:
  "nonblank [] = False"
  "nonblank (c # s) = (\<not> is_space c \<or> nonblank s)"
  by (simp_all add: nonblank_def)

lemma split_acc_Nil: "split_acc cur s = [] \<longleftrightarrow> cur = [] \<and> \<not> nonblank s"
  by (induction s arbitrary: cur) auto

lemma split_acc_multi:
  "1 < length (split_acc cur s) \<longleftrightarrow>
     (\<exists>a b c. s = a @ b # c \<and> is_space b \<and> (cur \<noteq> [] \<or> nonblank a) \<and> nonblank c)"
proof (induction s arbitrary: cur)
  case Nil
  then show ?case by simp
next
  case (Cons x xs)
  show ?case
  proof (cases "is_space x")
    case False
    have "(\<exists>a b c. x # xs = a @ b # c \<and> is_space b \<and> (cur \<noteq> [] \<or> nonblank a) \<and> nonblank c)
          \<longleftrightarrow> (\<exists>a b c. xs = a @ b # c \<and> is_space b \<and> nonblank c)"
      (is "?L \<longleftrightarrow> ?R")
    proof
      assume ?L
      then obtain a b c where h: "x # xs = a @ b # c" "is_space b" "nonblank c" by blast
      with False obtain a' where "a = x # a'" by (cases a) auto
      with h show ?R by auto
    next
      assume ?R
      then obtain a b c where h: "xs = a @ b # c" "is_space b" "nonblank c" by blast
      then have "x # xs = (x # a) @ b # c" by simp
      moreover from False have "nonblank (x # a)" by simp
      ultimately show ?L using h by blast
    qed
    with False Cons.IH [of "cur @ [x]"] show ?thesis by simp
  next
    case True
    show ?thesis
    proof (cases "cur = []")
      case cur: True
      have "(\<exists>a b c. x # xs = a @ b # c \<and> is_space b \<and> nonblank a \<and> nonblank c)
          \<longleftrightarrow> (\<exists>a b c. xs = a @ b # c \<and> is_space b \<and> nonblank a \<and> nonblank c)"
        (is "?L \<longleftrightarrow> ?R")
      proof
        assume ?L
        then obtain a b c where h: "x # xs = a @ b # c" "is_space b" "nonblank a" "nonblank c"
          by blast
        then obtain a' where a: "a = x # a'" by (cases a) auto
        with h True have "xs = a' @ b # c" "nonblank a'" by auto
        with h show ?R by blast
      next
        assume ?R
        then obtain a b c where h: "xs = a @ b # c" "is_space b" "nonblank a" "nonblank c"
          by blast
        then have "x # xs = (x # a) @ b # c" "nonblank (x # a)" by simp_all
        with h show ?L by blast
      qed
      with True cur Cons.IH [of "[]"] show ?thesis by simp
    next
      case cur: False
      have "(\<exists>a b c. x # xs = a @ b # c \<and> is_space b \<and> nonblank c) \<longleftrightarrow> nonblank xs"
        (is "?L \<longleftrightarrow> ?R")
      proof
        assume ?L
        then obtain a b c where h: "x # xs = a @ b # c" "nonblank c" by blast
        then have "set c \<subseteq> set xs" by (cases a) auto
        with h(2) show ?R by (auto simp: nonblank_def list_ex_iff)
      next
        assume ?R
        with True have "x # xs = [] @ x # xs \<and> is_space x \<and> nonblank xs" by simp
        then show ?L by blast
      qed
      with True cur show ?thesis by (simp add: split_acc_Nil)
    qed
  qed
qed

lemma multiword_iff:
  "multiword name \<longleftrightarrow>
     (\<exists>a b c. name = a @ b # c \<and> is_space b \<and> nonblank a \<and> nonblank c)"
  using split_acc_multi [of "[]" name] by (simp add: multiword_def split_def)





section \<open>Only the first e-mail address and the first phone number are kept\<close>

lemma search_from_None:
  "search_from r t pos = None \<Longrightarrow> pos \<le> i \<Longrightarrow> i \<le> length t \<Longrightarrow> match_items r t i = None"
proof (induction r t pos rule: search_from.induct)
  case (1 r t pos)
  from "1.prems" have le: "\<not> length t < pos" by simp
  from "1.prems"(1) le have here: "match_items r t pos = None"
    by (simp add: search_from.simps [of r t pos] split: option.splits)
  with "1.prems"(1) le have rest: "search_from r t (pos + 1) = None"
    by (simp add: search_from.simps [of r t pos])
  show ?case
  proof (cases "i = pos")
    case True
    with here show ?thesis by simp
  next
    case False
    with "1.prems" have "pos + 1 \<le> i" by simp
    with "1.IH" [OF le here rest] "1.prems" show ?thesis by simp
  qed
qed







section \<open>The empty text\<close>

lemma skill_not_found_in_empty: "\<not> skill_found [] s"
  by (simp add: skill_found_def re_search_def skill_pattern_def match_items_WordB
        at_boundary_def word_at_def search_from.simps [of _ "[]"])

lemma skills_loop_empty_text: "skills_loop [] vs found = found"
  using skill_not_found_in_empty
  by (induction vs arbitrary: found) (simp_all add: Let_def skill_found_def)

lemma contact_empty: "extract_contact_info [] = (None, None)"
  by (simp add: run_extract)

text \<open>
  C5. On the empty text, given a recogniser that reports no entity on it,
  \<open>extract_name\<close> returns no name, \<open>extract_contact_info\<close> no e-mail address and no
  phone number, \<open>extract_skills\<close> the empty set for every vocabulary, and the score of
  that set against any job keywords is 0. No operation of these functions can raise on
  the empty text: the only indexing, \<open>email[0]\<close>, \<open>phone[0]\<close> and
  \<open>person_names[0]\<close>, is guarded by the list being non-empty, so each function is a
  total function here and returns the value stated.
\<close>

theorem empty_text:
  assumes "nlp [] = []"
  shows "extract_name [] nlp = None
         \<and> extract_contact_info [] = (None, None)
         \<and> extract_skills [] vocabulary = []
         \<and> calculate_match_score (extract_skills [] vocabulary) job_keywords = 0"
proof -
  have n: "extract_name [] nlp = None"
    using assms by (simp add: extract_name_def)
  have s: "extract_skills [] vocabulary = []"
    by (simp add: extract_skills_def lower_def skills_loop_empty_text)
  have "calculate_match_score [] job_keywords = 0"
    by (simp add: calculate_match_score_def py_set_def intersection_def)
  with n s contact_empty show ?thesis by simp
qed

theorem empty_text_witness:
  "extract_name [] demo_nlp = None
   \<and> extract_contact_info [] = (None, None)
   \<and> extract_skills [] TARGET_SKILLS = []
   \<and> calculate_match_score (extract_skills [] TARGET_SKILLS) [''python'', ''sql''] = 0"
proof -
  have "demo_nlp [] = []" by (simp add: demo_nlp_def)
  with empty_text [of demo_nlp TARGET_SKILLS "[''python'', ''sql'']"] show ?thesis by blast
qed

section \<open>Whole-word matching of skills\<close>

lemma greedy_lit:
  "greedy (One (Lit c)) (Some 1) t pos = (if pos < length t \<and> t ! pos = c then 1 else 0)"
proof (cases "pos < length t")
  case True
  then have "drop pos t = t ! pos # drop (Suc pos) t"
    by (simp add: Cons_nth_drop_Suc)
  then show ?thesis using True by (simp add: greedy_def)
next
  case False
  then show ?thesis by (simp add: greedy_def)
qed

lemma match_lit:
  "match_items (plain (One (Lit c)) # r) t pos =
     (if pos < length t \<and> t ! pos = c then match_items r t (pos + 1) else None)"
proof (cases "pos < length t \<and> t ! pos = c")
  case True
  with greedy_lit [of c t pos] have "greedy (One (Lit c)) (Some 1) t pos = 1" by simp
  then have "match_items (plain (One (Lit c)) # r) t pos = try_rep r t pos 1 1"
    by (simp add: plain_def match_items_Rep)
  also have "\<dots> = match_items r t (pos + 1)"
    by (subst try_rep_unfold, subst try_rep_unfold) (simp split: option.splits)
  finally show ?thesis using True by simp
next
  case False
  with greedy_lit [of c t pos] have "greedy (One (Lit c)) (Some 1) t pos = 0" by simp
  then have "match_items (plain (One (Lit c)) # r) t pos = try_rep r t pos 1 0"
    by (simp add: plain_def match_items_Rep)
  also have "\<dots> = None"
    by (subst try_rep_unfold) simp
  finally show ?thesis using False by auto
qed

lemma substring_Cons:
  "substring t pos (pos + length (c # s)) = c # s \<longleftrightarrow>
     (pos < length t \<and> t ! pos = c) \<and> substring t (pos + 1) (pos + 1 + length s) = s"
proof (cases "pos < length t")
  case True
  then have "drop pos t = t ! pos # drop (Suc pos) t"
    by (simp add: Cons_nth_drop_Suc)
  then show ?thesis using True by (auto simp: substring_def)
next
  case False
  then show ?thesis by (simp add: substring_def)
qed

lemma match_lits:
  "match_items (map (\<lambda>c. plain (One (Lit c))) s @ r) t pos =
     (if substring t pos (pos + length s) = s
      then match_items r t (pos + length s) else None)"
proof (induction s arbitrary: pos)
  case Nil
  then show ?case by (simp add: substring_def)
next
  case (Cons c s)
  show ?case
    using substring_Cons [of t pos c s]
    by (simp add: match_lit Cons.IH)
qed

lemma match_skill_pattern:
  "match_items (skill_pattern s) t pos =
     (if at_boundary t pos \<and> substring t pos (pos + length s) = s
           \<and> at_boundary t (pos + length s)
      then Some (pos + length s) else None)"
  by (simp add: skill_pattern_def match_items_WordB match_lits)

lemma re_search_iff:
  "re_search r t \<noteq> None \<longleftrightarrow> (\<exists>i\<le>length t. match_items r t i \<noteq> None)"
proof (cases "search_from r t 0")
  case None
  then show ?thesis
    by (auto simp: re_search_def dest: search_from_None)
next
  case (Some p)
  obtain s e where "p = (s, e)" by (cases p)
  with Some have "s \<le> length t" "match_items r t s = Some e"
    by (auto dest: search_from_Some)
  with Some show ?thesis by (auto simp: re_search_def)
qed

lemma substring_eqD:
  assumes "substring t i (i + length s) = s"
  shows "i + length s \<le> length t \<or> s = []" and "k < length s \<Longrightarrow> t ! (i + k) = s ! k"
proof -
  from assms have "length (take (length s) (drop i t)) = length s"
    by (simp add: substring_def)
  then show le: "i + length s \<le> length t \<or> s = []" by (cases s) auto
  assume k: "k < length s"
  with le have "i + k < length t" by auto
  from assms have "take (length s) (drop i t) ! k = s ! k"
    by (simp add: substring_def)
  with k \<open>i + k < length t\<close> show "t ! (i + k) = s ! k" by simp
qed

lemma skill_pattern_whole_word:
  assumes "s \<noteq> []" and "is_word (hd s)" and "is_word (last s)"
  shows "re_search (skill_pattern s) t \<noteq> None \<longleftrightarrow> whole_word_in s t"
proof -
  have edge: "word_at t i \<and> word_at t (i + length s - 1) \<and> i + length s \<le> length t"
    if sub: "substring t i (i + length s) = s" for i
  proof -
    from assms(1) substring_eqD(1) [OF sub] have le: "i + length s \<le> length t" by simp
    from assms(1) have "0 < length s" by simp
    with substring_eqD(2) [OF sub, of 0] have "t ! i = hd s"
      by (simp add: hd_conv_nth assms(1))
    moreover from assms(1) have "i + length s - 1 = i + (length s - 1)" by (cases s) simp_all
    with assms(1) substring_eqD(2) [OF sub, of "length s - 1"]
    have "t ! (i + length s - 1) = last s"
      by (simp add: last_conv_nth)
    moreover from assms(1) le have "i < length t" "i + length s - 1 < length t"
      by (cases s; simp)+
    ultimately show ?thesis using assms le
      by (simp add: word_at_def)
  qed
  have key: "(at_boundary t i \<and> substring t i (i + length s) = s \<and> at_boundary t (i + length s))
          = (substring t i (i + length s) = s
             \<and> \<not> (0 < i \<and> word_at t (i - 1)) \<and> \<not> word_at t (i + length s))" for i
    using edge [of i] assms(1) by (auto simp: at_boundary_def)
  have "re_search (skill_pattern s) t \<noteq> None \<longleftrightarrow>
        (\<exists>i\<le>length t. at_boundary t i \<and> substring t i (i + length s) = s
             \<and> at_boundary t (i + length s))"
    by (subst re_search_iff) (auto simp: match_skill_pattern)
  also have "\<dots> \<longleftrightarrow>
        (\<exists>i\<le>length t. substring t i (i + length s) = s
             \<and> \<not> (0 < i \<and> word_at t (i - 1)) \<and> \<not> word_at t (i + length s))"
    by (simp only: key)
  also have "\<dots> \<longleftrightarrow> whole_word_in s t"
    unfolding whole_word_in_def
  proof
    assume "\<exists>i\<le>length t. substring t i (i + length s) = s
             \<and> \<not> (0 < i \<and> word_at t (i - 1)) \<and> \<not> word_at t (i + length s)"
    then obtain i where i: "substring t i (i + length s) = s"
        "\<not> (0 < i \<and> word_at t (i - 1))" "\<not> word_at t (i + length s)"
      by blast
    from edge [OF i(1)] have "i + length s \<le> length t" by simp
    with i show "\<exists>i. i + length s \<le> length t \<and> substring t i (i + length s) = s
             \<and> \<not> (0 < i \<and> word_at t (i - 1)) \<and> \<not> word_at t (i + length s)"
      by blast
  next
    assume "\<exists>i. i + length s \<le> length t \<and> substring t i (i + length s) = s
             \<and> \<not> (0 < i \<and> word_at t (i - 1)) \<and> \<not> word_at t (i + length s)"
    then obtain i where i: "i + length s \<le> length t" "substring t i (i + length s) = s"
        "\<not> (0 < i \<and> word_at t (i - 1))" "\<not> word_at t (i + length s)"
      by blast
    then have "i \<le> length t" by simp
    with i show "\<exists>i\<le>length t. substring t i (i + length s) = s
             \<and> \<not> (0 < i \<and> word_at t (i - 1)) \<and> \<not> word_at t (i + length s)"
      by blast
  qed
  finally show ?thesis .
qed

lemma alphabet_lower: "k < 26 \<Longrightarrow> is_lower (''abcdefghijklmnopqrstuvwxyz'' ! k)"
proof -
  have "\<forall>c \<in> set ''abcdefghijklmnopqrstuvwxyz''. is_lower c"
    by (simp add: is_lower_def ord_def)
  moreover assume "k < 26"
  then have "''abcdefghijklmnopqrstuvwxyz'' ! k \<in> set ''abcdefghijklmnopqrstuvwxyz''"
    by (intro nth_mem) simp
  ultimately show ?thesis by blast
qed

lemma is_word_lower_char: "is_word (lower_char c) = is_word c"
proof (cases "is_upper c")
  case True
  then have "ord c - 65 < 26" by (auto simp: is_upper_def)
  then have "is_lower (lower_char c)" using True by (simp add: lower_char_def alphabet_lower)
  with True show ?thesis by (simp add: is_word_def)
next
  case False
  then show ?thesis by (simp add: lower_char_def)
qed

text \<open>
  For a vocabulary entry that begins and ends with a word character, the test of
  \<open>extract_skills\<close> is the whole-word test, without regard to case: the entry is in
  the result exactly when it is in the vocabulary and its lowercased form has a
  whole-word occurrence in the lowercased text.
\<close>

theorem extract_skills_whole_word:
  assumes "S \<noteq> []" and "is_word (hd S)" and "is_word (last S)"
  shows "S \<in> set (extract_skills T vs) \<longleftrightarrow> S \<in> set vs \<and> whole_word_in (lower S) (lower T)"
proof -
  from assms have "lower S \<noteq> []" "is_word (hd (lower S))" "is_word (last (lower S))"
    by (simp_all add: lower_def hd_map last_map is_word_lower_char)
  then have "skill_found (lower T) S \<longleftrightarrow> whole_word_in (lower S) (lower T)"
    unfolding skill_found_def by (rule skill_pattern_whole_word)
  then show ?thesis by (simp add: set_extract_skills)
qed

lemma javascript_example:
  "extract_skills ''I write javascript daily'' [''java'', ''javascript''] = [''javascript'']"
  by (simp add: run_extract)

theorem extract_skills_whole_word_witness:
  "set (extract_skills ''I write javascript daily'' [''java'', ''javascript'']) = {''javascript''}
   \<and> \<not> whole_word_in (lower ''java'') (lower ''I write javascript daily'')
   \<and> whole_word_in (lower ''javascript'') (lower ''I write javascript daily'')"
  using extract_skills_whole_word
          [of "''java''" "''I write javascript daily''" "[''java'', ''javascript'']"]
        extract_skills_whole_word
          [of "''javascript''" "''I write javascript daily''" "[''java'', ''javascript'']"]
  by (simp add: javascript_example is_word_def is_lower_def ord_def)

section \<open>A skill that ends with a character that is no word character\<close>

lemma cpp_whole_word: "whole_word_in (lower ''c++'') (lower ''I know C++ and Java'')"
  unfolding whole_word_in_def
  by (rule exI [of _ 7]) (simp add: run_text word_at_def)

lemma cpp_not_whole_word: "\<not> whole_word_in (lower ''c++'') (lower ''c++11'')"
proof
  have l: "lower ''c++'' = ''c++''" "lower ''c++11'' = ''c++11''"
    by (simp_all add: run_text)
  assume "whole_word_in (lower ''c++'') (lower ''c++11'')"
  then obtain i where le: "i + length ''c++'' \<le> length ''c++11''"
      and sub: "substring ''c++11'' i (i + length ''c++'') = ''c++''"
      and after: "\<not> word_at ''c++11'' (i + length ''c++'')"
    unfolding whole_word_in_def l by blast
  from le have "i = 0 \<or> i = 1 \<or> i = 2" by simp arith
  then show False using sub after
    by (elim disjE) (simp_all add: run_text word_at_def)
qed

lemma cpp_example:
  "extract_skills ''I know C++ and Java'' TARGET_SKILLS = [''java'']"
  by (simp add: run_extract TARGET_SKILLS_def)

lemma cpp11_example:
  "extract_skills ''c++11'' TARGET_SKILLS = [''c++'']"
  by (simp add: run_extract TARGET_SKILLS_def)

text \<open>
  C1 says that a vocabulary entry is found when the text has it as a whole word, between
  characters that are no word characters or the edges of the text, and is not found when
  the text has it only inside a longer word. The entry \<open>c++\<close> of \<open>TARGET_SKILLS\<close>
  ends with \<open>+\<close>, which is no word character, so the closing \<open>\b\<close> of the pattern
  \<^verbatim>\<open>\bc\+\+\b\<close> asks for a word character right after it. In the text
  \<open>I know C++ and Java\<close> the entry stands as a whole word, before a space, and
  \<open>extract_skills\<close> does not find it; in \<open>c++11\<close> it is followed by a digit, so it is
  no whole word there, and \<open>extract_skills\<close> finds it.
\<close>

theorem extract_skills_misses_cpp:
  "''c++'' \<in> set TARGET_SKILLS
   \<and> whole_word_in (lower ''c++'') (lower ''I know C++ and Java'')
   \<and> ''c++'' \<notin> set (extract_skills ''I know C++ and Java'' TARGET_SKILLS)
   \<and> \<not> whole_word_in (lower ''c++'') (lower ''c++11'')
   \<and> ''c++'' \<in> set (extract_skills ''c++11'' TARGET_SKILLS)"
  using cpp_whole_word cpp_not_whole_word
  by (simp add: cpp_example cpp11_example) (simp add: TARGET_SKILLS_def)

section \<open>Files that cannot be read\<close>

lemmas run_files = splitext_def rfind_def extract_text_def extract_text_from_pdf_def
  extract_text_from_docx_def demo_pdf_def demo_docx_def file_extension_def

lemma extract_text_unsupported:
  "file_extension f \<noteq> ''.pdf'' \<Longrightarrow> file_extension f \<noteq> ''.docx'' \<Longrightarrow>
   extract_text P D f = ([], [''Unsupported file type: '' @ file_name f])"
  by (simp add: extract_text_def file_extension_def)

lemma extract_text_pdf_open_fails:
  "file_extension f = ''.pdf'' \<Longrightarrow> P (file_value f) = Inl e \<Longrightarrow>
   extract_text P D f = ([], [''Could not read PDF: '' @ e])"
  by (simp add: extract_text_def file_extension_def extract_text_from_pdf_def)

lemma extract_text_docx_open_fails:
  "file_extension f = ''.docx'' \<Longrightarrow> D (file_value f) = Inl e \<Longrightarrow>
   extract_text P D f = ([], [''Could not read DOCX: '' @ e])"
  by (simp add: extract_text_def file_extension_def extract_text_from_docx_def)

lemma process_file_empty_text:
  "extract_text P D f = ([], ws) \<Longrightarrow>
   process_file nlp P D jk f = (failed_row (file_name f), ws)"
  by (simp add: process_file_def failed_row_def)

lemma process_file_Filename: "Filename (fst (process_file nlp P D jk f)) = file_name f"
  by (simp add: process_file_def Let_def split: prod.splits)

lemma process_files_Filenames:
  "map Filename (fst (process_files nlp P D jk fs acc)) = map Filename (fst acc) @ map file_name fs"
proof (induction fs arbitrary: acc)
  case Nil
  then show ?case by simp
next
  case (Cons f fs)
  obtain row ws where r: "process_file nlp P D jk f = (row, ws)" by (cases "process_file nlp P D jk f")
  with process_file_Filename [of nlp P D jk f] have "Filename row = file_name f" by simp
  with r Cons.IH show ?case by simp
qed

text \<open>
  A file with an extension other than \<open>.pdf\<close> and \<open>.docx\<close>, or one whose reader
  raises when it opens the bytes, gives the empty text and one warning, and its row in
  the results is the placeholder row, with the name \<open>Extraction Failed\<close> and score 0.
  The batch goes on: the results hold one row for every uploaded file, in the order of
  the upload.
\<close>

theorem extraction_failure_isolated:
  assumes "(file_extension f \<noteq> ''.pdf'' \<and> file_extension f \<noteq> ''.docx'')
           \<or> (file_extension f = ''.pdf'' \<and> P (file_value f) = Inl e)
           \<or> (file_extension f = ''.docx'' \<and> D (file_value f) = Inl e)"
  shows "(\<exists>w. extract_text P D f = ([], [w])
              \<and> process_file nlp P D jk f = (failed_row (file_name f), [w]))
         \<and> Score (failed_row (file_name f)) = 0
         \<and> map Filename (fst (results nlp P D jd (fs @ f # gs)))
             = map file_name fs @ file_name f # map file_name gs"
proof -
  from assms obtain w where "extract_text P D f = ([], [w])"
    using extract_text_unsupported [of f P D] extract_text_pdf_open_fails [of f P e D]
      extract_text_docx_open_fails [of f D e P]
    by blast
  then have "\<exists>w. extract_text P D f = ([], [w])
              \<and> process_file nlp P D jk f = (failed_row (file_name f), [w])"
    by (auto simp: process_file_empty_text)
  then show ?thesis
    by (simp add: results_def Let_def process_files_Filenames failed_row_def)
qed

theorem extraction_failure_isolated_witness:
  "process_file demo_nlp demo_pdf demo_docx [''python'']
      \<lparr>file_name = ''notes.txt'', file_value = ''plain text''\<rparr>
     = (failed_row ''notes.txt'', [''Unsupported file type: notes.txt''])
   \<and> map Filename (fst (results demo_nlp demo_pdf demo_docx ''Python''
        [\<lparr>file_name = ''a.pdf'', file_value = ''one page''\<rparr>,
         \<lparr>file_name = ''notes.txt'', file_value = ''plain text''\<rparr>,
         \<lparr>file_name = ''b.docx'', file_value = ''two paragraphs''\<rparr>]))
     = [''a.pdf'', ''notes.txt'', ''b.docx'']"
proof -
  let ?f = "\<lparr>file_name = ''notes.txt'', file_value = ''plain text''\<rparr>"
  have x: "file_extension ?f = ''.txt''"
    by (simp add: file_extension_def splitext_def rfind_def run_text)
  have t: "extract_text demo_pdf demo_docx ?f = ([], [''Unsupported file type: notes.txt''])"
    by (simp add: run_files run_text)
  from extraction_failure_isolated
         [of ?f demo_pdf _ demo_docx demo_nlp "[''python'']" "''Python''"
             "[\<lparr>file_name = ''a.pdf'', file_value = ''one page''\<rparr>]"
             "[\<lparr>file_name = ''b.docx'', file_value = ''two paragraphs''\<rparr>]"] x t
  show ?thesis by simp
qed

section \<open>A reader that fails after the first page\<close>

lemma broken_pdf_text:
  "extract_text demo_pdf demo_docx
     \<lparr>file_name = ''cv.pdf'', file_value = ''two pages, the second broken''\<rparr> =
   (''Jane Doe knows Python\<newline>'', [''Could not read PDF: bad stream''])"
  by (simp add: run_files run_text)

lemma broken_pdf_skills:
  "extract_skills ''Jane Doe knows Python\<newline>'' TARGET_SKILLS = [''python'']"
  by (simp add: run_extract TARGET_SKILLS_def)

lemma broken_pdf_contact:
  "extract_contact_info ''Jane Doe knows Python\<newline>'' = (None, None)"
  by (simp add: run_extract)

lemma broken_pdf_name:
  "extract_name ''Jane Doe knows Python\<newline>'' demo_nlp = Some ''Jane Doe''"
  by (simp add: extract_name_def demo_nlp_def run_text)

text \<open>
  C4 says that a file whose reader throws during the parse gives the empty text, and a
  row with the extraction-failed marker and score 0. That is so when the reader throws
  as it opens the file. When \<open>page.extract_text()\<close> throws on a later page, the
  \<open>except\<close> clause shows the warning and \<open>return text\<close> returns the text of the pages
  read so far: for a PDF whose first page reads \<open>Jane Doe knows Python\<close> and whose
  second page throws, the text is not empty, and the row carries a name, the skill and
  score 1, not the marker.
\<close>

theorem reader_failure_after_first_page:
  "process_file demo_nlp demo_pdf demo_docx [''python'']
     \<lparr>file_name = ''cv.pdf'', file_value = ''two pages, the second broken''\<rparr> =
   (\<lparr>Filename = ''cv.pdf'', Name = ''Jane Doe'', Email = ''Not Found'', Phone = ''Not Found'',
     Skills_Found = [''python''], Score = 1,
     Raw_Text = ''Jane Doe knows Python\<newline>''\<rparr>,
    [''Could not read PDF: bad stream''])"
  by (simp add: process_file_def Let_def broken_pdf_text broken_pdf_skills broken_pdf_contact
        broken_pdf_name or_not_found_def calculate_match_score_def py_set_def intersection_def)

section \<open>The ranking is sorted by descending score\<close>

lemmas run_rank = DataFrame_def nargsort_desc_def sort_values_desc_def sorts_def stable_argsort_def
  ties_reversed_argsort_def reset_index_def index_plus_def with_rank_def ranked_df_def demo_row_def





lemma mirror_upt: "map (\<lambda>j. n - 1 - j) [0..<n] = rev [0..<n]"
  by (rule nth_equalityI) (auto simp: rev_nth)


lemma mset_mirror:
  assumes "mset p = mset [0..<n]"
  shows "mset (map (\<lambda>j. n - 1 - j) p) = mset [0..<n]"
proof -
  have "mset (map (\<lambda>j. n - 1 - j) p) = image_mset (\<lambda>j. n - 1 - j) (mset p)" by simp
  also have "\<dots> = image_mset (\<lambda>j. n - 1 - j) (mset [0..<n])" by (simp only: assms)
  also have "\<dots> = mset (map (\<lambda>j. n - 1 - j) [0..<n])" by simp
  also have "\<dots> = mset (rev [0..<n])" by (simp only: mirror_upt)
  finally show ?thesis by simp
qed












section \<open>Ranks\<close>

lemma with_rank_nth:
  "i < length df \<Longrightarrow>
   with_rank (index_plus 1 (reset_index df)) ! i
     = (int i + 1, candidate.extend (snd (df ! i)) (ranked.fields (int i + 1)))"
  by (simp add: with_rank_def index_plus_def reset_index_def)

lemma length_with_rank: "length (with_rank (index_plus 1 (reset_index df))) = length df"
  by (simp add: with_rank_def index_plus_def reset_index_def)

text \<open>The rows of the ranked frame, without the rank, are the rows of the sorted frame.\<close>

lemma rows_ranked_df:
  "map (\<lambda>x. candidate.truncate (snd x)) (ranked_df srt rs)
     = map snd (sort_values_desc srt (DataFrame rs))"
  by (rule nth_equalityI)
     (simp_all add: ranked_df_def length_with_rank with_rank_nth candidate.extend_def
        ranked.fields_def candidate.truncate_def)

text \<open>
  C8. The ranked frame has one row for each row of the sorted frame, in the same order,
  and the row at position \<open>i\<close> (counted from 0) has the index label and the rank
  \<open>i + 1\<close>: the first row has rank 1 and the ranks go up by one with no gap.
\<close>

theorem ranks_dense:
  "length (ranked_df srt rs) = length (sort_values_desc srt (DataFrame rs))
   \<and> (\<forall>i<length (ranked_df srt rs).
         fst (ranked_df srt rs ! i) = int i + 1
         \<and> Rank (snd (ranked_df srt rs ! i)) = int i + 1
         \<and> candidate.truncate (snd (ranked_df srt rs ! i))
             = snd (sort_values_desc srt (DataFrame rs) ! i))"
  by (simp add: ranked_df_def length_with_rank with_rank_nth candidate.extend_def
        ranked.fields_def candidate.truncate_def)

lemma demo_ranked:
  "map (\<lambda>(i, r). (i, Filename r, Score r, Rank r)) (ranked_df stable_argsort demo_rows)
     = [(1, ''b'', 2, 1), (2, ''d'', 2, 2), (3, ''a'', 1, 3), (4, ''c'', 1, 4)]"
  by (simp add: run_rank demo_rows_def candidate.extend_def ranked.fields_def)

theorem ranks_dense_witness:
  "map (\<lambda>(i, r). (i, Filename r, Score r, Rank r)) (ranked_df stable_argsort demo_rows)
     = [(1, ''b'', 2, 1), (2, ''d'', 2, 2), (3, ''a'', 1, 3), (4, ''c'', 1, 4)]
   \<and> length (ranked_df stable_argsort demo_rows) = 4
   \<and> Rank (snd (ranked_df stable_argsort demo_rows ! 0)) = 1
   \<and> Rank (snd (ranked_df stable_argsort demo_rows ! 3)) = 4"
proof -
  have l: "length (ranked_df stable_argsort demo_rows) = 4"
    using arg_cong [OF demo_ranked, of length] by simp
  from ranks_dense [of stable_argsort demo_rows] l
  have "\<forall>i<4. Rank (snd (ranked_df stable_argsort demo_rows ! i)) = int i + 1"
    by simp
  then have "Rank (snd (ranked_df stable_argsort demo_rows ! 0)) = 1"
    and "Rank (snd (ranked_df stable_argsort demo_rows ! 3)) = 4"
    by (auto dest: spec [of _ 0] spec [of _ 3])
  with demo_ranked l show ?thesis by simp
qed

end
